theory Spec2Isabelle
  imports Complex_Main "HOL-Library.Sublist" "HOL-Library.Multiset"
begin

section \<open>The Pylint workflow\<close>

text \<open>
  The workflow file is data: a name, the events that start it, and one job with a build
  matrix and a list of steps. The model keeps the YAML's structure and its texts; the
  command lines of the \<^verbatim>\<open>run\<close> blocks are kept as the strings the file holds and are read
  by the functions below.
\<close>

datatype step =
    Uses "string option" string "(string \<times> string) list"
  | Run string "string list"

record job =
  runs_on :: string
  matrix_python_version :: "string list"
  steps :: "step list"

record workflow =
  name :: string
  on_pull_request_branches :: "string list"
  jobs :: "(string \<times> job) list"

definition build :: job where
  "build = \<lparr>
     runs_on = ''ubuntu-latest'',
     matrix_python_version = [''3.9'', ''3.10'', ''3.11''],
     steps = [
       Uses None ''actions/checkout@v3'' [],
       Uses (Some ''Set up Python ${{ matrix.python-version }}'') ''actions/setup-python@v3''
         [(''python-version'', ''${{ matrix.python-version }}'')],
       Run ''Install dependencies'' [
         ''python -m pip install --upgrade pip'',
         ''pip install pylint'',
         ''pip install .'',
         ''pip install -r requirements-dev.txt'',
         ''pip install -r requirements-testing.txt'',
         ''pip install tensorflow''],
       Run ''Analysing the code with pylint'' [
         ''pylint --fail-under=10 --disable=typecheck,W,C,R --extension-pkg-allow-list=scipy.special $(git ls-files '*.py')'',
         ''pylint --fail-under=9 --disable=typecheck,E,C,R $(git ls-files '*.py')'']]\<rparr>"

definition Pylint :: workflow where
  "Pylint = \<lparr>
     name = ''Pylint'',
     on_pull_request_branches = [''master''],
     jobs = [(''build'', build)]\<rparr>"

subsection \<open>Events\<close>

text \<open>
  The file has one key under \<^verbatim>\<open>on\<close>: \<^verbatim>\<open>pull_request\<close>, with a branch filter. A pull
  request starts the workflow when its base branch matches an entry of the filter; an
  entry without wildcard characters matches the branch of that name only. No other event
  is listed, so a push starts nothing.
\<close>

datatype event = Pull_request string | Push string

fun triggered :: "workflow \<Rightarrow> event \<Rightarrow> bool" where
  "triggered w (Pull_request base) = (base \<in> set (on_pull_request_branches w))"
| "triggered w (Push branch) = False"

subsection \<open>The build matrix\<close>

text \<open>
  The runner makes one job per entry of the matrix, replacing the expression
  \<^verbatim>\<open>${{ matrix.python-version }}\<close> in the texts of the steps by that entry.
\<close>

fun replace_expr :: "string \<Rightarrow> string \<Rightarrow> string \<Rightarrow> string" where
  "replace_expr pat v [] = []"
| "replace_expr pat v (c # cs) =
     (if pat \<noteq> [] \<and> prefix pat (c # cs)
      then v @ replace_expr pat v (drop (length pat - 1) cs)
      else c # replace_expr pat v cs)"

definition matrix_expr :: string where
  "matrix_expr = ''${{ matrix.python-version }}''"

fun instantiate_step :: "string \<Rightarrow> step \<Rightarrow> step" where
  "instantiate_step v (Uses nm action params) =
     Uses (map_option (replace_expr matrix_expr v) nm) action
       (map (\<lambda>(k, x). (k, replace_expr matrix_expr v x)) params)"
| "instantiate_step v (Run nm cmds) =
     Run (replace_expr matrix_expr v nm) (map (replace_expr matrix_expr v) cmds)"

definition matrix_jobs :: "job \<Rightarrow> step list list" where
  "matrix_jobs j = map (\<lambda>v. map (instantiate_step v) (steps j)) (matrix_python_version j)"

text \<open>The interpreter a job of the matrix sets up: the \<^verbatim>\<open>python-version\<close> given to
  the \<^verbatim>\<open>actions/setup-python\<close> step.\<close>

fun setup_python :: "step list \<Rightarrow> string option" where
  "setup_python [] = None"
| "setup_python (Uses nm action params # ss) =
     (if prefix ''actions/setup-python@'' action then map_of params ''python-version''
      else setup_python ss)"
| "setup_python (Run nm cmds # ss) = setup_python ss"

subsection \<open>Command lines\<close>

text \<open>
  A command line is split into words at the spaces that are not inside a command
  substitution \<^verbatim>\<open>$( ... )\<close>. The first argument counts the open parentheses, the second
  holds the word being read, last character first.
\<close>

fun shell_words_aux :: "nat \<Rightarrow> string \<Rightarrow> string \<Rightarrow> string list" where
  "shell_words_aux d w [] = (if w = [] then [] else [rev w])"
| "shell_words_aux d w (c # cs) =
     (if c = CHR ''('' then shell_words_aux (Suc d) (c # w) cs
      else if c = CHR '')'' then shell_words_aux (d - 1) (c # w) cs
      else if c = CHR '' '' \<and> d = 0
        then (if w = [] then shell_words_aux d [] cs else rev w # shell_words_aux d [] cs)
      else shell_words_aux d (c # w) cs)"

definition shell_words :: "string \<Rightarrow> string list" where
  "shell_words line = shell_words_aux 0 [] line"

text \<open>The value of a long option written \<^verbatim>\<open>--key=value\<close>; the last one given counts.\<close>

definition option_value :: "string \<Rightarrow> string list \<Rightarrow> string option" where
  "option_value key argv =
     (case rev (filter (prefix (key @ ''='')) argv) of
        [] \<Rightarrow> None
      | a # _ \<Rightarrow> Some (drop (length key + 1) a))"

fun split_on :: "char \<Rightarrow> string \<Rightarrow> string list" where
  "split_on sep [] = [[]]"
| "split_on sep (c # cs) =
     (case split_on sep cs of
        [] \<Rightarrow> [[c]]
      | w # ws \<Rightarrow> if c = sep then [] # w # ws else (c # w) # ws)"

fun digit :: "char \<Rightarrow> nat option" where
  "digit c =
     (let n = (of_char c :: nat)
      in if of_char CHR ''0'' \<le> n \<and> n \<le> of_char CHR ''9''
         then Some (n - of_char CHR ''0'') else None)"

fun parse_nat_aux :: "nat \<Rightarrow> string \<Rightarrow> nat option" where
  "parse_nat_aux acc [] = Some acc"
| "parse_nat_aux acc (c # cs) =
     (case digit c of None \<Rightarrow> None | Some d \<Rightarrow> parse_nat_aux (10 * acc + d) cs)"

definition parse_nat :: "string \<Rightarrow> nat option" where
  "parse_nat s = (if s = [] then None else parse_nat_aux 0 s)"

subsection \<open>The pylint invocations of a job\<close>

fun run_lines :: "step \<Rightarrow> string list" where
  "run_lines (Uses nm action params) = []"
| "run_lines (Run nm cmds) = cmds"

definition pylint_invocations :: "job \<Rightarrow> string list list" where
  "pylint_invocations j =
     filter (\<lambda>argv. take 1 argv = [''pylint''])
       (map shell_words (concat (map run_lines (steps j))))"

text \<open>The threshold of \<^verbatim>\<open>--fail-under\<close>; pylint's default is 10.\<close>

definition fail_under :: "string list \<Rightarrow> nat option" where
  "fail_under argv =
     (case option_value ''--fail-under'' argv of
        None \<Rightarrow> Some 10
      | Some s \<Rightarrow> parse_nat s)"

text \<open>The entries of \<^verbatim>\<open>--disable\<close>: message categories (one letter) and checker names.\<close>

definition disable :: "string list \<Rightarrow> string list" where
  "disable argv =
     (case option_value ''--disable'' argv of
        None \<Rightarrow> []
      | Some s \<Rightarrow> split_on CHR '','' s)"

text \<open>The arguments that are not options: what pylint is asked to analyse.\<close>

definition targets :: "string list \<Rightarrow> string list" where
  "targets argv = filter (\<lambda>a. \<not> prefix ''--'' a) (drop 1 argv)"

definition first_run :: "string list" where
  "first_run = pylint_invocations build ! 0"

definition second_run :: "string list" where
  "second_run = pylint_invocations build ! 1"

subsection \<open>What pylint does with these options\<close>

text \<open>
  pylint is a tool the job installs, so its behaviour is not in the workflow file; the
  definitions of this subsection follow pylint's documentation of the options the file
  passes and of its exit status. A message has a category (its letter) and belongs to a
  checker; an entry of \<^verbatim>\<open>--disable\<close> switches off a whole category or a whole checker.
\<close>

datatype category = Fatal | Error | Warning | Refactor | Convention | Info

fun letter :: "category \<Rightarrow> string" where
  "letter Fatal = ''F''"
| "letter Error = ''E''"
| "letter Warning = ''W''"
| "letter Refactor = ''R''"
| "letter Convention = ''C''"
| "letter Info = ''I''"

definition categories :: "category list" where
  "categories = [Fatal, Error, Warning, Refactor, Convention, Info]"

text \<open>The message categories that a command line switches off as a whole.\<close>

definition suppressed_categories :: "string list \<Rightarrow> category list" where
  "suppressed_categories argv = filter (\<lambda>c. letter c \<in> set (disable argv)) categories"

record message =
  msg_category :: category
  msg_checker :: string

definition enabled :: "string list \<Rightarrow> message \<Rightarrow> bool" where
  "enabled dis m = (letter (msg_category m) \<notin> set dis \<and> msg_checker m \<notin> set dis)"

definition count_category :: "category \<Rightarrow> message list \<Rightarrow> nat" where
  "count_category c ms = length (filter (\<lambda>m. msg_category m = c) ms)"

text \<open>
  The score is pylint's default evaluation formula over the messages raised and the
  number of statements analysed (the file passes no other formula). pylint computes no
  score when it analysed no statement.
\<close>

definition evaluation :: "nat \<Rightarrow> message list \<Rightarrow> rat option" where
  "evaluation statement ms =
     (if statement = 0 then None
      else Some (max 0 (if 0 < count_category Fatal ms then 0
            else 10 - (of_nat (5 * count_category Error ms + count_category Warning ms
                               + count_category Refactor ms + count_category Convention ms)
                       / of_nat statement) * 10)))"

text \<open>
  The message status: one bit for each category of which a message was raised (fatal 1,
  error 2, warning 4, refactor 8, convention 16; information messages set no bit). The
  bits are different powers of two, so their sum is their bitwise disjunction.
\<close>

fun status_bit :: "category \<Rightarrow> nat" where
  "status_bit Fatal = 1"
| "status_bit Error = 2"
| "status_bit Warning = 4"
| "status_bit Refactor = 8"
| "status_bit Convention = 16"
| "status_bit Info = 0"

definition msg_status :: "message list \<Rightarrow> nat" where
  "msg_status ms =
     sum_list (map status_bit (filter (\<lambda>c. 0 < count_category c ms) categories))"

text \<open>
  The exit status of one run of pylint over sources with the given number of
  statements, on which the checkers would raise the given messages if none were
  disabled. A threshold that cannot be read is an error of usage, status 32 (the
  thresholds in the file are whole numbers and are read as such). With a score, the
  status is 0 when the score reaches the threshold of \<^verbatim>\<open>--fail-under\<close>, and otherwise
  the message status, or 1 if that is 0. Without a score it is the message status.
\<close>

definition pylint_run :: "string list \<Rightarrow> nat \<Rightarrow> message list \<Rightarrow> nat" where
  "pylint_run argv statement ms =
     (let raised = filter (enabled (disable argv)) ms
      in case fail_under argv of
           None \<Rightarrow> 32
         | Some threshold \<Rightarrow>
             (case evaluation statement raised of
                None \<Rightarrow> msg_status raised
              | Some score \<Rightarrow>
                  if score < of_nat threshold
                  then (if msg_status raised = 0 then 1 else msg_status raised)
                  else 0))"

text \<open>
  The commands of a \<^verbatim>\<open>run\<close> block are run in order by a shell that stops at the first
  command with a status other than 0; that status is the status of the step, and a step
  with a status other than 0 fails the job.
\<close>

fun run_block :: "nat list \<Rightarrow> nat" where
  "run_block [] = 0"
| "run_block (status # rest) = (if status = 0 then run_block rest else status)"

definition analysis_step :: "nat \<Rightarrow> message list \<Rightarrow> nat" where
  "analysis_step statement ms =
     run_block (map (\<lambda>argv. pylint_run argv statement ms) (pylint_invocations build))"

definition fails :: "nat \<Rightarrow> bool" where
  "fails status = (status \<noteq> 0)"

section \<open>Splitting a table into a training and a testing set\<close>

text \<open>
  Modelled from the spec: the method \<^verbatim>\<open>train_test_split\<close> of the library. The notebook
  calls it, once without arguments and once with \<^verbatim>\<open>order_by = {"fare": "asc"}\<close>; its code
  is not among the files. The spec describes it as splitting a table into train and test
  partitions using a seeded pseudo-random value per row, optionally after sorting by a
  user-specified column. The notebook adds that the function generates a seed that is
  then shared between the training and the testing set, that the value of
  \<^verbatim>\<open>SEEDED_RANDOM\<close> depends on the order of the data, and that the selected data might be
  inconsistent if the data is not sorted by a unique feature. So:

  \<^item> a read of the table is the list of its rows in the order in which the engine
    delivers them;
  \<^item> \<^verbatim>\<open>SEEDED_RANDOM\<close> is a function of the database engine and stays a parameter,
    \<open>seeded_random\<close>: the value for a seed and a position in that order;
  \<^item> the rule that turns a row's value into a side is not described and stays a parameter
    as well, \<open>to_test\<close>;
  \<^item> with \<open>order_by\<close>, the rows are first sorted by the column, ascending as in the
    notebook's call; rows with the same value of the column stay in the order in which
    they were read;
  \<^item> the training set and the testing set are two selections with the same seed, each
    over its own read of the table.
\<close>

text \<open>Modelled from the spec: the sorting step of \<^verbatim>\<open>train_test_split\<close> ("optionally after
  sorting by a user-specified column"); without \<open>order_by\<close> the rows stay as read.\<close>

definition ordered :: "('r \<Rightarrow> 'k::linorder) option \<Rightarrow> 'r list \<Rightarrow> 'r list" where
  "ordered order_by rows = (case order_by of None \<Rightarrow> rows | Some col \<Rightarrow> sort_key col rows)"

text \<open>Modelled from the spec: the "seeded pseudo-random value per row" that
  \<^verbatim>\<open>train_test_split\<close> computes, each row paired with the value of its position.\<close>

definition seeded_values :: "(int \<Rightarrow> nat \<Rightarrow> 'v) \<Rightarrow> int \<Rightarrow> 'r list \<Rightarrow> ('r \<times> 'v) list" where
  "seeded_values seeded_random seed rows =
     zip rows (map (seeded_random seed) [0..<length rows])"

text \<open>Modelled from the spec: one of the two selections of \<^verbatim>\<open>train_test_split\<close>, the rows
  of one read, sorted if \<open>order_by\<close> is given, whose seeded value the rule \<open>keep\<close> lets
  through.\<close>

definition selection ::
  "(int \<Rightarrow> nat \<Rightarrow> 'v) \<Rightarrow> ('v \<Rightarrow> bool) \<Rightarrow> int \<Rightarrow> ('r \<Rightarrow> 'k::linorder) option \<Rightarrow> 'r list
     \<Rightarrow> 'r list" where
  "selection seeded_random keep seed order_by rows =
     map fst (filter (\<lambda>rv. keep (snd rv))
       (seeded_values seeded_random seed (ordered order_by rows)))"

text \<open>Modelled from the spec: \<^verbatim>\<open>train_test_split\<close> itself, "splitting a table into
  train/test partitions using a seeded pseudo-random value per row, optionally after
  sorting by a user-specified column", with the seed shared between the two sets. The
  last two arguments are the read of the table for the training set and the read for the
  testing set. The result is the pair of the training and the testing set, as in the
  notebook's \<^verbatim>\<open>train, test = titanic.train_test_split()\<close>.\<close>

definition train_test_split ::
  "(int \<Rightarrow> nat \<Rightarrow> 'v) \<Rightarrow> ('v \<Rightarrow> bool) \<Rightarrow> int \<Rightarrow> ('r \<Rightarrow> 'k::linorder) option \<Rightarrow> 'r list
     \<Rightarrow> 'r list \<Rightarrow> 'r list \<times> 'r list" where
  "train_test_split seeded_random to_test seed order_by read_train read_test =
     (selection seeded_random (\<lambda>v. \<not> to_test v) seed order_by read_train,
      selection seeded_random to_test seed order_by read_test)"

text \<open>Whether \<open>order_by\<close> names a column in which no two rows have the same value.\<close>

definition unique_column :: "('r \<Rightarrow> 'k) option \<Rightarrow> 'r list \<Rightarrow> bool" where
  "unique_column order_by rows =
     (case order_by of None \<Rightarrow> False | Some col \<Rightarrow> distinct (map col rows))"

subsection \<open>Sample data\<close>

text \<open>
  For the concrete instances below: rows with an identifier and a fare, a sample
  generator with values in \<open>[0, 1)\<close> that stands in for the engine's function, and a
  sample rule that sends the values below one third to the testing set.
\<close>

record passenger =
  pid :: nat
  fare :: nat

definition sample_random :: "int \<Rightarrow> nat \<Rightarrow> rat" where
  "sample_random seed i = of_int ((seed + int i) mod 3) / 3"

definition sample_rule :: "rat \<Rightarrow> bool" where
  "sample_rule v = (v < 1 / 3)"

section \<open>Properties of the workflow\<close>

lemma pylint_invocations_build: "pylint_invocations build = [first_run, second_run]"
  by code_simp

lemma first_run_options:
  "disable first_run = [''typecheck'', ''W'', ''C'', ''R'']"
  "fail_under first_run = Some 10"
  by code_simp+

lemma second_run_options:
  "disable second_run = [''typecheck'', ''E'', ''C'', ''R'']"
  "fail_under second_run = Some 9"
  by code_simp+

lemma suppressed_categories_runs:
  "suppressed_categories first_run = [Warning, Refactor, Convention]"
  "suppressed_categories second_run = [Error, Refactor, Convention]"
  by (simp_all add: suppressed_categories_def categories_def first_run_options
      second_run_options)

text \<open>
  Claim C3. The only event that starts the workflow is a pull request, and the branch
  filter of the \<^verbatim>\<open>pull_request\<close> trigger holds one entry, \<^verbatim>\<open>master\<close>, the name git gives
  to the main line of a repository: a pull request starts the workflow exactly when its
  base is that branch, and a push never does. The files name no other branch; the
  filter names the repository's main branch exactly when that branch is \<^verbatim>\<open>master\<close>.
\<close>

theorem pull_request_master:
  "on_pull_request_branches Pylint = [''master'']
   \<and> triggered Pylint (Pull_request base) = (base = ''master'')
   \<and> \<not> triggered Pylint (Push branch)
   \<and> (on_pull_request_branches Pylint = [main_branch]) = (main_branch = ''master'')"
  by (auto simp: Pylint_def)

text \<open>
  Claim C5. The workflow has one job, and the job runs pylint exactly twice, both times
  over the files that \<^verbatim>\<open>git ls-files '*.py'\<close> lists. The two runs differ in the threshold
  of \<^verbatim>\<open>--fail-under\<close>, 10 and 9, and in the message categories they suppress: the first
  suppresses warnings, refactoring and convention messages, the second errors,
  refactoring and convention messages; warnings are suppressed by the first run only,
  errors by the second run only.
\<close>

theorem pylint_twice:
  "map snd (jobs Pylint) = [build]
   \<and> length (pylint_invocations build) = 2
   \<and> targets first_run = [''$(git ls-files '*.py')'']
   \<and> targets second_run = [''$(git ls-files '*.py')'']
   \<and> fail_under first_run = Some 10
   \<and> fail_under second_run = Some 9
   \<and> fail_under first_run \<noteq> fail_under second_run
   \<and> set (disable first_run) \<noteq> set (disable second_run)
   \<and> disable first_run = [''typecheck'', ''W'', ''C'', ''R'']
   \<and> disable second_run = [''typecheck'', ''E'', ''C'', ''R'']
   \<and> suppressed_categories first_run = [Warning, Refactor, Convention]
   \<and> suppressed_categories second_run = [Error, Refactor, Convention]
   \<and> set (suppressed_categories first_run) \<noteq> set (suppressed_categories second_run)
   \<and> Warning \<in> set (suppressed_categories first_run)
   \<and> Warning \<notin> set (suppressed_categories second_run)
   \<and> Error \<in> set (suppressed_categories second_run)
   \<and> Error \<notin> set (suppressed_categories first_run)"
proof -
  have "map snd (jobs Pylint) = [build]"
    by (simp add: Pylint_def)
  moreover have "length (pylint_invocations build) = 2"
    by (simp add: pylint_invocations_build)
  moreover have "targets first_run = [''$(git ls-files '*.py')'']"
    and "targets second_run = [''$(git ls-files '*.py')'']"
    by code_simp+
  moreover have "set (disable first_run) \<noteq> set (disable second_run)"
  proof -
    have "''W'' \<in> set (disable first_run)" and "''W'' \<notin> set (disable second_run)"
      by (simp_all add: first_run_options second_run_options)
    then show ?thesis by blast
  qed
  moreover have w: "Warning \<in> set (suppressed_categories first_run)"
    "Warning \<notin> set (suppressed_categories second_run)"
    and "Error \<in> set (suppressed_categories second_run)"
    "Error \<notin> set (suppressed_categories first_run)"
    by (simp_all add: suppressed_categories_runs)
  moreover from w
  have "set (suppressed_categories first_run) \<noteq> set (suppressed_categories second_run)"
    by blast
  ultimately show ?thesis
    by (simp only: first_run_options second_run_options suppressed_categories_runs)
      simp
qed

text \<open>
  Claim C6. The matrix of the workflow's job lists exactly three interpreter versions,
  all different, and the runner makes one job for each: three jobs, which set up Python 3.9, 3.10 and 3.11.
\<close>

theorem matrix_three_versions:
  "map snd (jobs Pylint) = [build]
   \<and> length (matrix_python_version build) = 3
   \<and> distinct (matrix_python_version build)
   \<and> length (matrix_jobs build) = 3
   \<and> map setup_python (matrix_jobs build) = [Some ''3.9'', Some ''3.10'', Some ''3.11'']"
proof -
  have "map snd (jobs Pylint) = [build]"
    by (simp add: Pylint_def)
  moreover have "matrix_python_version build = [''3.9'', ''3.10'', ''3.11'']"
    by (simp add: build_def)
  moreover have "length (matrix_jobs build) = 3"
    by (simp add: matrix_jobs_def build_def)
  moreover have
    "map setup_python (matrix_jobs build) = [Some ''3.9'', Some ''3.10'', Some ''3.11'']"
    by code_simp
  ultimately show ?thesis by simp
qed

subsection \<open>The two thresholds\<close>

lemma count_category_disabled:
  "letter c \<in> set dis \<Longrightarrow> count_category c (filter (enabled dis) ms) = 0"
  by (induction ms) (auto simp: count_category_def enabled_def)

lemma count_category_pos_iff:
  "0 < count_category c ms \<longleftrightarrow> (\<exists>m\<in>set ms. msg_category m = c)"
  by (induction ms) (auto simp: count_category_def)

lemma msg_status_zero_iff:
  "msg_status ms = 0 \<longleftrightarrow>
     count_category Fatal ms = 0 \<and> count_category Error ms = 0
     \<and> count_category Warning ms = 0 \<and> count_category Refactor ms = 0
     \<and> count_category Convention ms = 0"
  by (simp add: msg_status_def categories_def)

lemma score_below_10_iff:
  assumes "0 < n" and "count_category Warning ms = 0" and "count_category Refactor ms = 0"
    and "count_category Convention ms = 0"
  shows "\<exists>s. evaluation n ms = Some s \<and> s \<le> 10 \<and>
     (s < 10 \<longleftrightarrow> 0 < count_category Fatal ms \<or> 0 < count_category Error ms)"
proof (cases "0 < count_category Fatal ms")
  case True
  then show ?thesis using assms by (simp add: evaluation_def)
next
  case False
  let ?e = "count_category Error ms"
  have "(0 < (of_nat (5 * ?e) :: rat) / of_nat n * 10) = (0 < ?e)"
    using assms(1) by (simp add: zero_less_divide_iff)
  then show ?thesis using False assms by (auto simp: evaluation_def)
qed

lemma score_below_9_iff:
  assumes "0 < n" and "count_category Error ms = 0" and "count_category Refactor ms = 0"
    and "count_category Convention ms = 0"
  shows "\<exists>s. evaluation n ms = Some s \<and>
     (s < 9 \<longleftrightarrow> 0 < count_category Fatal ms \<or> n < 10 * count_category Warning ms)"
proof (cases "0 < count_category Fatal ms")
  case True
  then show ?thesis using assms by (simp add: evaluation_def)
next
  case False
  let ?w = "count_category Warning ms"
  have "(max 0 (10 - of_nat ?w / of_nat n * 10) < (9::rat))
      = (10 - of_nat ?w / of_nat n * 10 < (9::rat))"
    by auto
  also have "\<dots> = ((1::rat) < of_nat ?w * 10 / of_nat n)" by auto
  also have "\<dots> = ((of_nat n :: rat) < of_nat ?w * 10)"
    using assms(1) by (simp add: less_divide_eq)
  also have "\<dots> = ((of_nat n :: rat) < of_nat (10 * ?w))" by (simp add: mult.commute)
  also have "\<dots> = (n < 10 * ?w)" by (simp only: of_nat_less_iff)
  finally show ?thesis using False assms by (simp add: evaluation_def)
qed

lemma pylint_run_status:
  assumes "fail_under argv = Some t"
  shows "pylint_run argv n ms =
    (case evaluation n (filter (enabled (disable argv)) ms) of
       None \<Rightarrow> msg_status (filter (enabled (disable argv)) ms)
     | Some s \<Rightarrow>
         if s < of_nat t
         then (if msg_status (filter (enabled (disable argv)) ms) = 0 then 1
               else msg_status (filter (enabled (disable argv)) ms))
         else 0)"
  using assms by (simp add: pylint_run_def Let_def)

lemma first_run_status:
  "fails (pylint_run first_run n ms) \<longleftrightarrow>
    (\<exists>m\<in>set ms. enabled (disable first_run) m
       \<and> (msg_category m = Fatal \<or> msg_category m = Error))"
proof -
  let ?r = "filter (enabled (disable first_run)) ms"
  have z: "count_category Warning ?r = 0" "count_category Refactor ?r = 0"
    "count_category Convention ?r = 0"
    by (simp_all add: count_category_disabled first_run_options)
  have rhs: "(0 < count_category Fatal ?r \<or> 0 < count_category Error ?r) \<longleftrightarrow>
    (\<exists>m\<in>set ms. enabled (disable first_run) m
       \<and> (msg_category m = Fatal \<or> msg_category m = Error))"
    by (auto simp: count_category_pos_iff)
  have "fails (pylint_run first_run n ms)
      \<longleftrightarrow> (0 < count_category Fatal ?r \<or> 0 < count_category Error ?r)"
  proof (cases "n = 0")
    case True
    then have "evaluation n ?r = None" by (simp add: evaluation_def)
    then show ?thesis
      by (simp add: fails_def pylint_run_status [OF first_run_options(2)]
          msg_status_zero_iff z)
  next
    case False
    then have "0 < n" by simp
    from score_below_10_iff[OF this z] obtain s where s: "evaluation n ?r = Some s"
      "s \<le> 10" "s < 10 \<longleftrightarrow> 0 < count_category Fatal ?r \<or> 0 < count_category Error ?r"
      by (elim exE conjE)
    have "fails (pylint_run first_run n ms) \<longleftrightarrow> s < 10"
      by (simp add: fails_def pylint_run_status [OF first_run_options(2)] s(1))
    with s(3) show ?thesis by simp
  qed
  with rhs show ?thesis by simp
qed

lemma second_run_status:
  "fails (pylint_run second_run n ms) \<longleftrightarrow>
    (0 < count_category Fatal (filter (enabled (disable second_run)) ms)
     \<or> n < 10 * count_category Warning (filter (enabled (disable second_run)) ms))"
proof -
  let ?r = "filter (enabled (disable second_run)) ms"
  have z: "count_category Error ?r = 0" "count_category Refactor ?r = 0"
    "count_category Convention ?r = 0"
    by (simp_all add: count_category_disabled second_run_options)
  show ?thesis
  proof (cases "n = 0")
    case True
    then have "evaluation n ?r = None" by (simp add: evaluation_def)
    then show ?thesis using True
      by (simp add: fails_def pylint_run_status [OF second_run_options(2)]
          msg_status_zero_iff z)
  next
    case False
    then have "0 < n" by simp
    from score_below_9_iff[OF this z] obtain s where s: "evaluation n ?r = Some s"
      "s < 9 \<longleftrightarrow> 0 < count_category Fatal ?r \<or> n < 10 * count_category Warning ?r"
      by (elim exE conjE)
    have "fails (pylint_run second_run n ms) \<longleftrightarrow> s < 9"
      by (simp add: fails_def pylint_run_status [OF second_run_options(2)] s(1))
    with s(2) show ?thesis by simp
  qed
qed

lemma first_run_score:
  "evaluation n (filter (enabled (disable first_run)) ms) = Some s \<Longrightarrow>
     s \<le> 10 \<and> fails (pylint_run first_run n ms) = (s \<noteq> 10)"
proof -
  assume ev: "evaluation n (filter (enabled (disable first_run)) ms) = Some s"
  then have "s \<le> 10" by (auto simp: evaluation_def split: if_splits)
  moreover have "fails (pylint_run first_run n ms) = (s < 10)"
    by (simp add: fails_def pylint_run_status [OF first_run_options(2)] ev)
  ultimately show ?thesis by auto
qed

lemma second_run_score:
  "evaluation n (filter (enabled (disable second_run)) ms) = Some s \<Longrightarrow>
     fails (pylint_run second_run n ms) = (s < 9)"
  by (simp add: fails_def pylint_run_status [OF second_run_options(2)])

lemma analysis_step_fails:
  "fails (analysis_step n ms)
     \<longleftrightarrow> fails (pylint_run first_run n ms) \<or> fails (pylint_run second_run n ms)"
  by (simp add: analysis_step_def pylint_invocations_build fails_def)

text \<open>
  Claim C10. The first run disables \<^verbatim>\<open>typecheck,W,C,R\<close> and has threshold 10: when
  pylint computes a score, the run fails unless the score is 10, and in every case it
  fails exactly when an error or fatal message is still enabled. The second run disables
  \<^verbatim>\<open>typecheck,E,C,R\<close> and has threshold 9: when pylint computes a score, the run fails
  exactly when the score is below 9, and in every case it fails exactly when there is a
  fatal message or the enabled warnings number more than a tenth of the statements.
  The step, and with it the job, fails exactly when one of the two runs fails. Warnings
  do not count in the first run, errors do not count in the second.
\<close>

theorem pylint_runs_complementary:
  "disable first_run = [''typecheck'', ''W'', ''C'', ''R''] \<and> fail_under first_run = Some 10
   \<and> disable second_run = [''typecheck'', ''E'', ''C'', ''R''] \<and> fail_under second_run = Some 9
   \<and> (evaluation statement (filter (enabled (disable first_run)) ms) = Some score1
        \<longrightarrow> score1 \<le> 10 \<and> fails (pylint_run first_run statement ms) = (score1 \<noteq> 10))
   \<and> (evaluation statement (filter (enabled (disable second_run)) ms) = Some score2
        \<longrightarrow> fails (pylint_run second_run statement ms) = (score2 < 9))
   \<and> fails (pylint_run first_run statement ms)
       = (\<exists>m\<in>set ms. enabled (disable first_run) m
            \<and> (msg_category m = Fatal \<or> msg_category m = Error))
   \<and> fails (pylint_run second_run statement ms)
       = (0 < count_category Fatal (filter (enabled (disable second_run)) ms)
          \<or> statement < 10 * count_category Warning (filter (enabled (disable second_run)) ms))
   \<and> fails (analysis_step statement ms)
       = (fails (pylint_run first_run statement ms) \<or> fails (pylint_run second_run statement ms))
   \<and> \<not> enabled (disable first_run) \<lparr>msg_category = Warning, msg_checker = checker\<rparr>
   \<and> \<not> enabled (disable second_run) \<lparr>msg_category = Error, msg_checker = checker\<rparr>"
proof -
  have a: "evaluation statement (filter (enabled (disable first_run)) ms) = Some score1
        \<longrightarrow> score1 \<le> 10 \<and> fails (pylint_run first_run statement ms) = (score1 \<noteq> 10)"
    using first_run_score by blast
  have b: "evaluation statement (filter (enabled (disable second_run)) ms) = Some score2
        \<longrightarrow> fails (pylint_run second_run statement ms) = (score2 < 9)"
    using second_run_score by blast
  have d: "\<not> enabled (disable first_run) \<lparr>msg_category = Warning, msg_checker = checker\<rparr>"
    by (simp add: enabled_def first_run_options)
  have e: "\<not> enabled (disable second_run) \<lparr>msg_category = Error, msg_checker = checker\<rparr>"
    by (simp add: enabled_def second_run_options)
  show ?thesis
    by (intro conjI first_run_options second_run_options a b d e
        first_run_status second_run_status analysis_step_fails)
qed

text \<open>
  The theorem at three runs. Over five statements with one error and one warning the
  scores are 0 and 8: both runs fail, and so does the step. Over seven statements
  without a message, nothing fails. Over sources in which pylint finds no statement but
  one error, there is no score; the first run fails all the same, and so does the step.
\<close>

theorem pylint_runs_complementary_witness:
  "evaluation 5 (filter (enabled (disable first_run))
        [\<lparr>msg_category = Error, msg_checker = ''classes''\<rparr>,
         \<lparr>msg_category = Warning, msg_checker = ''variables''\<rparr>]) = Some 0
   \<and> fails (pylint_run first_run 5
        [\<lparr>msg_category = Error, msg_checker = ''classes''\<rparr>,
         \<lparr>msg_category = Warning, msg_checker = ''variables''\<rparr>])
   \<and> evaluation 5 (filter (enabled (disable second_run))
        [\<lparr>msg_category = Error, msg_checker = ''classes''\<rparr>,
         \<lparr>msg_category = Warning, msg_checker = ''variables''\<rparr>]) = Some 8
   \<and> fails (pylint_run second_run 5
        [\<lparr>msg_category = Error, msg_checker = ''classes''\<rparr>,
         \<lparr>msg_category = Warning, msg_checker = ''variables''\<rparr>])
   \<and> fails (analysis_step 5
        [\<lparr>msg_category = Error, msg_checker = ''classes''\<rparr>,
         \<lparr>msg_category = Warning, msg_checker = ''variables''\<rparr>])
   \<and> \<not> fails (analysis_step 7 [])
   \<and> fails (analysis_step 0 [\<lparr>msg_category = Error, msg_checker = ''main''\<rparr>])"
proof -
  let ?ms = "[\<lparr>msg_category = Error, msg_checker = ''classes''\<rparr>,
         \<lparr>msg_category = Warning, msg_checker = ''variables''\<rparr>]"
  let ?e = "\<lparr>msg_category = Error, msg_checker = ''main''\<rparr>"
  note T = pylint_runs_complementary [where statement = 5 and ms = ?ms
      and ?score1.0 = 0 and ?score2.0 = 8]
  have h1: "evaluation 5 (filter (enabled (disable first_run)) ?ms) = Some 0"
    by (simp add: evaluation_def count_category_def enabled_def first_run_options)
  have h2: "evaluation 5 (filter (enabled (disable second_run)) ?ms) = Some 8"
    by (simp add: evaluation_def count_category_def enabled_def second_run_options)
  note i1 = T [THEN conjunct2, THEN conjunct2, THEN conjunct2, THEN conjunct2, THEN conjunct1]
  note i2 = T [THEN conjunct2, THEN conjunct2, THEN conjunct2, THEN conjunct2, THEN conjunct2,
      THEN conjunct1]
  note i3 = T [THEN conjunct2, THEN conjunct2, THEN conjunct2, THEN conjunct2, THEN conjunct2,
      THEN conjunct2, THEN conjunct2, THEN conjunct2, THEN conjunct1]
  from i1 h1 have c1: "fails (pylint_run first_run 5 ?ms)" by simp
  from i2 h2 have c2: "fails (pylint_run second_run 5 ?ms)" by simp
  from i3 c1 have c3: "fails (analysis_step 5 ?ms)" by simp
  note U = pylint_runs_complementary [where statement = 7 and ms = "[]"]
  note u1 = U [THEN conjunct2, THEN conjunct2, THEN conjunct2, THEN conjunct2, THEN conjunct2,
      THEN conjunct2, THEN conjunct1]
  note u2 = U [THEN conjunct2, THEN conjunct2, THEN conjunct2, THEN conjunct2, THEN conjunct2,
      THEN conjunct2, THEN conjunct2, THEN conjunct1]
  note u3 = U [THEN conjunct2, THEN conjunct2, THEN conjunct2, THEN conjunct2, THEN conjunct2,
      THEN conjunct2, THEN conjunct2, THEN conjunct2, THEN conjunct1]
  from u1 have "\<not> fails (pylint_run first_run 7 [])" by simp
  moreover from u2 have "\<not> fails (pylint_run second_run 7 [])"
    by (simp add: count_category_def)
  ultimately have c4: "\<not> fails (analysis_step 7 [])" using u3 by simp
  note V = pylint_runs_complementary [where statement = 0 and ms = "[?e]"]
  note v1 = V [THEN conjunct2, THEN conjunct2, THEN conjunct2, THEN conjunct2, THEN conjunct2,
      THEN conjunct2, THEN conjunct1]
  note v3 = V [THEN conjunct2, THEN conjunct2, THEN conjunct2, THEN conjunct2, THEN conjunct2,
      THEN conjunct2, THEN conjunct2, THEN conjunct2, THEN conjunct1]
  have "enabled (disable first_run) ?e"
    by (simp add: enabled_def first_run_options)
  with v1 have "fails (pylint_run first_run 0 [?e])" by simp
  with v3 have c5: "fails (analysis_step 0 [?e])" by simp
  from h1 h2 c1 c2 c3 c4 c5 show ?thesis by (intro conjI)
qed

section \<open>Properties of the split\<close>

lemma selection_nths:
  "selection f keep seed order_by rows = nths (ordered order_by rows) {i. keep (f seed i)}"
  by (simp add: selection_def seeded_values_def nths_def zip_map2 filter_map comp_def
      case_prod_unfold)

lemma mset_ordered: "mset (ordered order_by rows) = mset rows"
  by (simp add: ordered_def split: option.split)

lemma distinct_ordered: "distinct rows \<Longrightarrow> distinct (ordered order_by rows)"
  by (simp add: ordered_def split: option.split)

lemma mset_both_sides:
  "mset (map fst (filter (\<lambda>rv. \<not> P rv) vs)) + mset (map fst (filter P vs)) = mset (map fst vs)"
  by (induction vs) auto

lemma mset_selections:
  "mset (selection f (\<lambda>v. \<not> to_test v) seed order_by rows)
     + mset (selection f to_test seed order_by rows) = mset rows"
proof -
  let ?vals = "seeded_values f seed (ordered order_by rows)"
  have "mset (selection f (\<lambda>v. \<not> to_test v) seed order_by rows)
     + mset (selection f to_test seed order_by rows) = mset (map fst ?vals)"
    unfolding selection_def by (rule mset_both_sides)
  also have "\<dots> = mset (ordered order_by rows)"
    by (simp add: seeded_values_def)
  finally show ?thesis by (simp only: mset_ordered)
qed

lemma disjoint_nths:
  assumes "distinct xs" and "A \<inter> B = {}"
  shows "set (nths xs A) \<inter> set (nths xs B) = {}"
  using assms by (auto simp: set_nths nth_eq_iff_index_eq)

lemma ordered_unique:
  assumes "mset rows1 = mset rows2" and "distinct (map col rows1)"
  shows "ordered (Some col) rows1 = ordered (Some col) rows2"
proof -
  have "inj_on col (set rows1)" using assms(2) by (simp add: distinct_map)
  with assms(1) have "sort_key col rows1 = sort_key col rows2"
    by (rule sort_key_eq_sort_key)
  then show ?thesis by (simp add: ordered_def)
qed

lemma selection_ordered:
  "ordered order_by rows1 = ordered order_by rows2 \<Longrightarrow>
     selection f keep seed order_by rows1 = selection f keep seed order_by rows2"
  by (simp add: selection_def)

text \<open>
  Claim C1, as amended. The two sets are selections with a shared seed, each over its
  own read of the table, and membership is decided by the seeded value of a row's
  position. When both reads deliver the rows in the same order, or \<open>order_by\<close> names a
  column in which no two rows have the same value, every position of the table (in the
  order in which the split goes through it) goes to exactly one side: the training set
  is the rows at the positions whose value the rule keeps out of the test, the testing
  set is the rows at all other positions. Together the two sets hold every row as often
  as the table does, and when no row occurs twice in the table, no row is in both sets.
\<close>

theorem train_test_split_partition:
  assumes "train_test_split seeded_random to_test seed order_by read_train read_test
             = (train, test)"
    and "mset read_train = mset read_test"
    and "read_train = read_test \<or> unique_column order_by read_train"
  shows "train = nths (ordered order_by read_train) {i. \<not> to_test (seeded_random seed i)}
     \<and> test = nths (ordered order_by read_train) {i. to_test (seeded_random seed i)}
     \<and> mset train + mset test = mset read_train
     \<and> set train \<union> set test = set read_train
     \<and> (distinct read_train \<longrightarrow> set train \<inter> set test = {})"
proof -
  let ?data = "ordered order_by read_train"
  have same: "ordered order_by read_test = ?data"
    using assms(3)
  proof
    assume "read_train = read_test"
    then show ?thesis by simp
  next
    assume "unique_column order_by read_train"
    then obtain col where c: "order_by = Some col" and d: "distinct (map col read_train)"
      by (auto simp: unique_column_def split: option.splits)
    from assms(2) d have "ordered (Some col) read_train = ordered (Some col) read_test"
      by (rule ordered_unique)
    with c show ?thesis by simp
  qed
  have tr: "train = selection seeded_random (\<lambda>v. \<not> to_test v) seed order_by read_train"
    using assms(1) by (simp add: train_test_split_def)
  have "test = selection seeded_random to_test seed order_by read_test"
    using assms(1) by (simp add: train_test_split_def)
  also have "\<dots> = selection seeded_random to_test seed order_by read_train"
    using same by (simp add: selection_def)
  finally have te: "test = selection seeded_random to_test seed order_by read_train" .
  have tr': "train = nths ?data {i. \<not> to_test (seeded_random seed i)}"
    unfolding tr by (rule selection_nths)
  have te': "test = nths ?data {i. to_test (seeded_random seed i)}"
    unfolding te by (rule selection_nths)
  have m: "mset train + mset test = mset read_train"
    unfolding tr te by (rule mset_selections)
  have "set_mset (mset train + mset test) = set_mset (mset read_train)"
    by (simp only: m)
  then have u: "set train \<union> set test = set read_train" by simp
  have d: "set train \<inter> set test = {}" if "distinct read_train"
  proof -
    have "distinct ?data" using that by (rule distinct_ordered)
    moreover have
      "{i. \<not> to_test (seeded_random seed i)} \<inter> {i. to_test (seeded_random seed i)} = {}"
      by auto
    ultimately show ?thesis unfolding tr' te' by (rule disjoint_nths)
  qed
  from tr' te' m u d show ?thesis by (intro conjI impI)
qed

text \<open>
  The theorem at a table of three passengers with three different fares, read in two
  different orders and split after sorting by the fare, with the sample generator and
  seed 0: the passenger with the lowest fare comes first and goes to the testing set,
  the other two go to the training set.
\<close>

theorem train_test_split_partition_witness:
  "train_test_split sample_random sample_rule 0 (Some fare)
     [\<lparr>pid = 2, fare = 7\<rparr>, \<lparr>pid = 1, fare = 5\<rparr>, \<lparr>pid = 3, fare = 6\<rparr>]
     [\<lparr>pid = 3, fare = 6\<rparr>, \<lparr>pid = 2, fare = 7\<rparr>, \<lparr>pid = 1, fare = 5\<rparr>]
   = ([\<lparr>pid = 3, fare = 6\<rparr>, \<lparr>pid = 2, fare = 7\<rparr>], [\<lparr>pid = 1, fare = 5\<rparr>])
   \<and> mset [\<lparr>pid = 2, fare = 7\<rparr>, \<lparr>pid = 1, fare = 5\<rparr>, \<lparr>pid = 3, fare = 6\<rparr>]
       = mset [\<lparr>pid = 3, fare = 6\<rparr>, \<lparr>pid = 2, fare = 7\<rparr>, \<lparr>pid = 1, fare = 5\<rparr>]
   \<and> unique_column (Some fare)
       [\<lparr>pid = 2, fare = 7\<rparr>, \<lparr>pid = 1, fare = 5\<rparr>, \<lparr>pid = 3, fare = 6\<rparr>]
   \<and> distinct [\<lparr>pid = 2, fare = 7\<rparr>, \<lparr>pid = 1, fare = 5\<rparr>, \<lparr>pid = 3, fare = 6\<rparr>]
   \<and> mset [\<lparr>pid = 3, fare = 6\<rparr>, \<lparr>pid = 2, fare = 7\<rparr>] + mset [\<lparr>pid = 1, fare = 5\<rparr>]
       = mset [\<lparr>pid = 2, fare = 7\<rparr>, \<lparr>pid = 1, fare = 5\<rparr>, \<lparr>pid = 3, fare = 6\<rparr>]
   \<and> set [\<lparr>pid = 3, fare = 6\<rparr>, \<lparr>pid = 2, fare = 7\<rparr>] \<inter> set [\<lparr>pid = 1, fare = 5\<rparr>] = {}"
proof -
  let ?a = "[\<lparr>pid = 2, fare = 7\<rparr>, \<lparr>pid = 1, fare = 5\<rparr>, \<lparr>pid = 3, fare = 6\<rparr>]"
  let ?b = "[\<lparr>pid = 3, fare = 6\<rparr>, \<lparr>pid = 2, fare = 7\<rparr>, \<lparr>pid = 1, fare = 5\<rparr>]"
  have eq: "train_test_split sample_random sample_rule 0 (Some fare) ?a ?b
   = ([\<lparr>pid = 3, fare = 6\<rparr>, \<lparr>pid = 2, fare = 7\<rparr>], [\<lparr>pid = 1, fare = 5\<rparr>])"
    by (simp add: train_test_split_def selection_def ordered_def seeded_values_def
        sample_random_def sample_rule_def)
  have m: "mset ?a = mset ?b" by simp
  have u: "unique_column (Some fare) ?a" by (simp add: unique_column_def)
  then have u': "?a = ?b \<or> unique_column (Some fare) ?a" ..
  have d: "distinct ?a" by simp
  note T = train_test_split_partition [OF eq m u']
  from T have t1: "mset [\<lparr>pid = 3, fare = 6\<rparr>, \<lparr>pid = 2, fare = 7\<rparr>] + mset [\<lparr>pid = 1, fare = 5\<rparr>]
       = mset ?a" by (elim conjE)
  from T d have t2: "set [\<lparr>pid = 3, fare = 6\<rparr>, \<lparr>pid = 2, fare = 7\<rparr>] \<inter> set [\<lparr>pid = 1, fare = 5\<rparr>] = {}"
    by (elim conjE) (erule mp)
  from eq m u d t1 t2 show ?thesis by (intro conjI)
qed

text \<open>
  Claim C1 as stated, for every table: two passengers, split without \<open>order_by\<close> as in
  the notebook's first call, with the sample generator and seed 0. The read for the
  training set delivers passenger 1 first, the read for the testing set passenger 2.
  Passenger 2 is in both sets and passenger 1 in neither.
\<close>

theorem train_test_split_collision_counterexample:
  "mset [\<lparr>pid = 1, fare = 5\<rparr>, \<lparr>pid = 2, fare = 7\<rparr>]
     = mset [\<lparr>pid = 2, fare = 7\<rparr>, \<lparr>pid = 1, fare = 5\<rparr>]
   \<and> train_test_split sample_random sample_rule 0 (None :: (passenger \<Rightarrow> nat) option)
       [\<lparr>pid = 1, fare = 5\<rparr>, \<lparr>pid = 2, fare = 7\<rparr>]
       [\<lparr>pid = 2, fare = 7\<rparr>, \<lparr>pid = 1, fare = 5\<rparr>]
     = ([\<lparr>pid = 2, fare = 7\<rparr>], [\<lparr>pid = 2, fare = 7\<rparr>])"
  by (simp add: train_test_split_def selection_def ordered_def seeded_values_def
      sample_random_def sample_rule_def)

subsection \<open>Sorting and repeated runs\<close>

text \<open>
  Two runs of the split over the same table may read its rows in different orders: the
  lists of rows are then permutations of each other.

  Whatever the generator and the rule, as soon as they send the first two positions to
  different sides, two rows with the same fare change sides with the order in which they
  are read, although the split sorts by the fare.
\<close>

lemma tie_changes_split:
  assumes "to_test (seeded_random seed 0) \<noteq> to_test (seeded_random seed 1)"
  shows "train_test_split seeded_random to_test seed (Some fare)
           [\<lparr>pid = 1, fare = 5\<rparr>, \<lparr>pid = 2, fare = 5\<rparr>]
           [\<lparr>pid = 1, fare = 5\<rparr>, \<lparr>pid = 2, fare = 5\<rparr>]
       \<noteq> train_test_split seeded_random to_test seed (Some fare)
           [\<lparr>pid = 2, fare = 5\<rparr>, \<lparr>pid = 1, fare = 5\<rparr>]
           [\<lparr>pid = 2, fare = 5\<rparr>, \<lparr>pid = 1, fare = 5\<rparr>]"
  using assms
  by (auto simp: train_test_split_def selection_def ordered_def seeded_values_def)

text \<open>
  Claim C4, as amended. With \<open>order_by\<close>, the split sorts the rows by the column first.
  When no two rows of the table have the same value in that column, the result does not
  depend on the order in which the table is read: for every seed, two runs over the same
  rows, whatever the order of each of their reads, go through the rows in the same order
  and select the same rows into the training and the testing set.
\<close>

theorem order_by_unique_deterministic:
  assumes "mset rows1_test = mset rows1" and "mset rows2 = mset rows1"
    and "mset rows2_test = mset rows1" and "distinct (map col rows1)"
  shows "ordered (Some col) rows1 = ordered (Some col) rows2
     \<and> ordered (Some col) rows1_test = ordered (Some col) rows2_test
     \<and> train_test_split seeded_random to_test seed (Some col) rows1 rows1
       = train_test_split seeded_random to_test seed (Some col) rows2 rows2
     \<and> train_test_split seeded_random to_test seed (Some col) rows1 rows1_test
       = train_test_split seeded_random to_test seed (Some col) rows2 rows2_test"
proof -
  have a: "ordered (Some col) rows1 = ordered (Some col) rows2"
    using assms(2) [symmetric] assms(4) by (rule ordered_unique)
  have "ordered (Some col) rows1 = ordered (Some col) rows1_test"
    using assms(1) [symmetric] assms(4) by (rule ordered_unique)
  moreover have "ordered (Some col) rows1 = ordered (Some col) rows2_test"
    using assms(3) [symmetric] assms(4) by (rule ordered_unique)
  ultimately have b: "ordered (Some col) rows1_test = ordered (Some col) rows2_test"
    by simp
  from a b show ?thesis
    by (simp add: train_test_split_def selection_def)
qed

text \<open>
  The theorem at three passengers with three different fares and four reads in
  different orders: both runs give the same two sets.
\<close>

theorem order_by_unique_deterministic_witness:
  "mset [\<lparr>pid = 1, fare = 5\<rparr>, \<lparr>pid = 2, fare = 7\<rparr>, \<lparr>pid = 3, fare = 6\<rparr>]
     = mset [\<lparr>pid = 2, fare = 7\<rparr>, \<lparr>pid = 1, fare = 5\<rparr>, \<lparr>pid = 3, fare = 6\<rparr>]
   \<and> mset [\<lparr>pid = 3, fare = 6\<rparr>, \<lparr>pid = 2, fare = 7\<rparr>, \<lparr>pid = 1, fare = 5\<rparr>]
     = mset [\<lparr>pid = 2, fare = 7\<rparr>, \<lparr>pid = 1, fare = 5\<rparr>, \<lparr>pid = 3, fare = 6\<rparr>]
   \<and> mset [\<lparr>pid = 1, fare = 5\<rparr>, \<lparr>pid = 3, fare = 6\<rparr>, \<lparr>pid = 2, fare = 7\<rparr>]
     = mset [\<lparr>pid = 2, fare = 7\<rparr>, \<lparr>pid = 1, fare = 5\<rparr>, \<lparr>pid = 3, fare = 6\<rparr>]
   \<and> distinct (map fare [\<lparr>pid = 2, fare = 7\<rparr>, \<lparr>pid = 1, fare = 5\<rparr>, \<lparr>pid = 3, fare = 6\<rparr>])
   \<and> train_test_split sample_random sample_rule 0 (Some fare)
       [\<lparr>pid = 2, fare = 7\<rparr>, \<lparr>pid = 1, fare = 5\<rparr>, \<lparr>pid = 3, fare = 6\<rparr>]
       [\<lparr>pid = 1, fare = 5\<rparr>, \<lparr>pid = 2, fare = 7\<rparr>, \<lparr>pid = 3, fare = 6\<rparr>]
     = train_test_split sample_random sample_rule 0 (Some fare)
       [\<lparr>pid = 3, fare = 6\<rparr>, \<lparr>pid = 2, fare = 7\<rparr>, \<lparr>pid = 1, fare = 5\<rparr>]
       [\<lparr>pid = 1, fare = 5\<rparr>, \<lparr>pid = 3, fare = 6\<rparr>, \<lparr>pid = 2, fare = 7\<rparr>]"
proof -
  let ?r1 = "[\<lparr>pid = 2, fare = 7\<rparr>, \<lparr>pid = 1, fare = 5\<rparr>, \<lparr>pid = 3, fare = 6\<rparr>]"
  let ?t1 = "[\<lparr>pid = 1, fare = 5\<rparr>, \<lparr>pid = 2, fare = 7\<rparr>, \<lparr>pid = 3, fare = 6\<rparr>]"
  let ?r2 = "[\<lparr>pid = 3, fare = 6\<rparr>, \<lparr>pid = 2, fare = 7\<rparr>, \<lparr>pid = 1, fare = 5\<rparr>]"
  let ?t2 = "[\<lparr>pid = 1, fare = 5\<rparr>, \<lparr>pid = 3, fare = 6\<rparr>, \<lparr>pid = 2, fare = 7\<rparr>]"
  have m1: "mset ?t1 = mset ?r1" by simp
  have m2: "mset ?r2 = mset ?r1" by simp
  have m3: "mset ?t2 = mset ?r1" by simp
  have d: "distinct (map fare ?r1)" by simp
  note T = order_by_unique_deterministic [OF m1 m2 m3 d, of sample_random sample_rule 0]
  note t = T [THEN conjunct2, THEN conjunct2, THEN conjunct2]
  from m1 m2 m3 d t show ?thesis by (intro conjI)
qed

text \<open>
  Claim C4 as stated, for every table: two passengers with the same fare, read in the
  two possible orders. Both lists are sorted by the fare already, so the split keeps
  them as they are; with the sample generator and seed 0 the row read first goes to the
  testing set, and the two runs select different rows.
\<close>

theorem order_by_duplicates_counterexample:
  "mset [\<lparr>pid = 1, fare = 5\<rparr>, \<lparr>pid = 2, fare = 5\<rparr>]
     = mset [\<lparr>pid = 2, fare = 5\<rparr>, \<lparr>pid = 1, fare = 5\<rparr>]
   \<and> train_test_split sample_random sample_rule 0 (Some fare)
       [\<lparr>pid = 1, fare = 5\<rparr>, \<lparr>pid = 2, fare = 5\<rparr>]
       [\<lparr>pid = 1, fare = 5\<rparr>, \<lparr>pid = 2, fare = 5\<rparr>]
     = ([\<lparr>pid = 2, fare = 5\<rparr>], [\<lparr>pid = 1, fare = 5\<rparr>])
   \<and> train_test_split sample_random sample_rule 0 (Some fare)
       [\<lparr>pid = 2, fare = 5\<rparr>, \<lparr>pid = 1, fare = 5\<rparr>]
       [\<lparr>pid = 2, fare = 5\<rparr>, \<lparr>pid = 1, fare = 5\<rparr>]
     = ([\<lparr>pid = 1, fare = 5\<rparr>], [\<lparr>pid = 2, fare = 5\<rparr>])
   \<and> train_test_split sample_random sample_rule 0 (Some fare)
       [\<lparr>pid = 1, fare = 5\<rparr>, \<lparr>pid = 2, fare = 5\<rparr>]
       [\<lparr>pid = 1, fare = 5\<rparr>, \<lparr>pid = 2, fare = 5\<rparr>]
     \<noteq> train_test_split sample_random sample_rule 0 (Some fare)
       [\<lparr>pid = 2, fare = 5\<rparr>, \<lparr>pid = 1, fare = 5\<rparr>]
       [\<lparr>pid = 2, fare = 5\<rparr>, \<lparr>pid = 1, fare = 5\<rparr>]"
  by (simp add: train_test_split_def selection_def ordered_def seeded_values_def
      sample_random_def sample_rule_def)

end
